theory Spec2Isabelle
  imports Complex_Main "HOL-Library.Word" "HOL-Library.Signed_Division"
begin

unbundle bit_operations_syntax

section \<open>Data model of \<open>BricktronicsMotor.h\<close>\<close>

text \<open>
  The class \<open>BricktronicsMotor\<close> is a record of its member variables (the leading
  underscore of the C++ names is dropped) together with the state of its collaborators:
  the counter of the \<open>Encoder\<close> object, what the \<open>PID\<close> object was last told, the
  signals on the output pins and the value \<open>millis()\<close> reads.

  Fixed-width integers are words: \<open>int32_t\<close> and \<open>int16_t\<close> and \<open>int8_t\<close> are read with
  \<open>sint\<close>, \<open>uint8_t\<close>, \<open>uint16_t\<close> and \<open>uint32_t\<close> with \<open>uint\<close>. A \<open>double\<close> is
  idealised as a \<open>real\<close>: the code only compares doubles, negates them, divides the gains
  by 8 and converts between them and integers.
\<close>

datatype pin_signal = LOW | HIGH | PWM int

text \<open>
  Undefined behaviour of C++ is a value: division by zero, overflow of signed
  arithmetic, and a floating value that does not fit the integer it is converted to.
\<close>

datatype fault = DivisionByZero | SignedOverflow | FloatToIntOverflow

text \<open>The commands the class sends to the pins and to the PID object.\<close>

datatype call =
    DigitalWrite "8 word" pin_signal
  | AnalogWrite "8 word" int
  | PidSetTunings real real real
  | PidCompute

record 'p motor =
  enPin :: "8 word"
  dirPin :: "8 word"
  pwmPin :: "8 word"
  enabled :: bool
  rawSpeed :: "16 word"
  pidMode :: "8 word"
  pidSetpoint :: real
  pidInput :: real
  pidOutput :: real
  pidKp :: real
  pidKi :: real
  pidKd :: real
  angleMultiplier :: "8 word"
  epsilon :: "8 word"
  encoder :: "32 word"
  pidTunings :: "real \<times> real \<times> real"
  pidSampleTime :: int
  pidOutputLimits :: "real \<times> real"
  pidMemory :: 'p
  pins :: "8 word \<Rightarrow> pin_signal"
  clock :: "32 word"
  calls :: "call list"

text \<open>
  \<open>encoder\<close> is the tick count \<open>_encoder.read()\<close> returns and \<open>_encoder.write\<close> sets.
  \<open>pidTunings\<close> holds the arguments of the latest \<open>_pid.SetTunings\<close> call,
  \<open>pidSampleTime\<close> and \<open>pidOutputLimits\<close> those of \<open>SetSampleTime\<close> and
  \<open>SetOutputLimits\<close>, and \<open>pidMemory\<close> whatever else the PID object keeps between two
  calls of \<open>Compute\<close>. \<open>pins\<close> maps a pin number to the signal last written to it, so two
  members naming the same pin share one signal. \<open>clock\<close> is what \<open>millis()\<close> returns.
  \<open>calls\<close> lists the commands sent so far, the latest first.
\<close>

text \<open>
  The world outside the class: \<open>physics\<close> gives the tick count and the millisecond
  counter the program finds at its next reading (the shaft turns and time passes
  whatever the program does), \<open>Compute\<close> is \<open>PID::Compute\<close>, which writes the output
  variable and its own memory. Both are parameters: the theorems hold for all of them.
\<close>

record 'p env =
  physics :: "'p motor \<Rightarrow> 32 word \<times> 32 word"
  Compute :: "'p motor \<Rightarrow> 'p \<times> real"

definition BRICKTRONICS_MOTOR_PID_KP :: real where
  "BRICKTRONICS_MOTOR_PID_KP = 2.64"

definition BRICKTRONICS_MOTOR_PID_KI :: real where
  "BRICKTRONICS_MOTOR_PID_KI = 14.432"

definition BRICKTRONICS_MOTOR_PID_KD :: real where
  "BRICKTRONICS_MOTOR_PID_KD = 0.1207317073"

definition BRICKTRONICS_MOTOR_PID_MODE_DISABLED :: "8 word" where
  "BRICKTRONICS_MOTOR_PID_MODE_DISABLED = 0"

definition BRICKTRONICS_MOTOR_PID_MODE_POSITION :: "8 word" where
  "BRICKTRONICS_MOTOR_PID_MODE_POSITION = 1"

definition BRICKTRONICS_MOTOR_PID_MODE_SPEED :: "8 word" where
  "BRICKTRONICS_MOTOR_PID_MODE_SPEED = 2"

definition BRICKTRONICS_MOTOR_PID_SAMPLE_TIME_MS :: int where
  "BRICKTRONICS_MOTOR_PID_SAMPLE_TIME_MS = 50"

definition BRICKTRONICS_MOTOR_ANGLE_MULTIPLIER_DEFAULT :: "8 word" where
  "BRICKTRONICS_MOTOR_ANGLE_MULTIPLIER_DEFAULT = 1"

definition BRICKTRONICS_MOTOR_EPSILON_DEFAULT :: "8 word" where
  "BRICKTRONICS_MOTOR_EPSILON_DEFAULT = 5"

definition BRICKTRONICS_MOTOR_PID_OUTPUT_SETTLED_THRESHOLD :: real where
  "BRICKTRONICS_MOTOR_PID_OUTPUT_SETTLED_THRESHOLD = 30"

section \<open>Arithmetic of the C++ types\<close>

text \<open>
  Signed arithmetic is computed on the integers the operands denote and is a fault when
  the result leaves the type. \<open>/\<close> and \<open>%\<close> truncate towards zero (\<open>sdiv\<close>, \<open>smod\<close>).
  A conversion to a narrower integer keeps the low bits (\<open>ucast\<close>); widening a signed
  value extends its sign (\<open>scast\<close>), widening an unsigned one does not (\<open>ucast\<close>).
\<close>

definition i32_checked :: "int \<Rightarrow> fault + 32 word" where
  "i32_checked x =
     (if - 2147483648 \<le> x \<and> x \<le> 2147483647 then Inr (word_of_int x) else Inl SignedOverflow)"

definition i32_add :: "32 word \<Rightarrow> 32 word \<Rightarrow> fault + 32 word" where
  "i32_add a b = i32_checked (sint a + sint b)"

definition i32_sub :: "32 word \<Rightarrow> 32 word \<Rightarrow> fault + 32 word" where
  "i32_sub a b = i32_checked (sint a - sint b)"

definition i32_mul :: "32 word \<Rightarrow> 32 word \<Rightarrow> fault + 32 word" where
  "i32_mul a b = i32_checked (sint a * sint b)"

definition i32_div :: "32 word \<Rightarrow> 32 word \<Rightarrow> fault + 32 word" where
  "i32_div a b = (if b = 0 then Inl DivisionByZero else i32_checked (sint a sdiv sint b))"

definition i32_rem :: "32 word \<Rightarrow> 32 word \<Rightarrow> fault + 32 word" where
  "i32_rem a b = (if b = 0 then Inl DivisionByZero else i32_checked (sint a smod sint b))"

definition i32_neg :: "32 word \<Rightarrow> fault + 32 word" where
  "i32_neg a = i32_checked (- sint a)"

text \<open>
  The \<open>abs\<close> of Arduino.h is the macro \<open>((x)>0?(x):-(x))\<close>: its argument is evaluated
  once for the test and once more for the value.
\<close>

definition double_abs :: "real \<Rightarrow> real" where
  "double_abs x = (if x > 0 then x else - x)"

text \<open>
  The product of an \<open>int16_t\<close> and an \<open>int8_t\<close> is computed in \<open>int\<close>, which has 16 bits on
  the AVR boards the header is written for (it sets \<open>TCCR1B\<close>).
\<close>

definition int_mul :: "16 word \<Rightarrow> 16 word \<Rightarrow> fault + 16 word" where
  "int_mul a b =
     (let x = sint a * sint b
      in if - 32768 \<le> x \<and> x \<le> 32767 then Inr (word_of_int x) else Inl SignedOverflow)"

definition i32_to_double :: "32 word \<Rightarrow> real" where
  "i32_to_double x = real_of_int (sint x)"

text \<open>A double converted to \<open>int16_t\<close> loses its fraction; out of range is a fault.\<close>

definition double_to_i16 :: "real \<Rightarrow> fault + 16 word" where
  "double_to_i16 x =
     (let t = (if 0 \<le> x then \<lfloor>x\<rfloor> else \<lceil>x\<rceil>)
      in if - 32768 \<le> t \<and> t \<le> 32767 then Inr (word_of_int t) else Inl FloatToIntOverflow)"

section \<open>The member functions\<close>

subsection \<open>Construction\<close>

text \<open>
  The constructor initialises the members it lists and calls \<open>SetSampleTime\<close> and
  \<open>SetOutputLimits\<close>; the PID object is built with the default gains. The three PID
  variables, the encoder and the hardware are not touched: they come from \<open>raw\<close>.
\<close>

definition BricktronicsMotor :: "8 word \<Rightarrow> 8 word \<Rightarrow> 8 word \<Rightarrow> 'p motor \<Rightarrow> 'p motor" where
  "BricktronicsMotor en dir pwm raw =
     raw\<lparr>enPin := en, dirPin := dir, pwmPin := pwm,
         enabled := False,
         rawSpeed := 0,
         pidTunings := (BRICKTRONICS_MOTOR_PID_KP, BRICKTRONICS_MOTOR_PID_KI,
                        BRICKTRONICS_MOTOR_PID_KD),
         pidKp := BRICKTRONICS_MOTOR_PID_KP,
         pidKi := BRICKTRONICS_MOTOR_PID_KI,
         pidKd := BRICKTRONICS_MOTOR_PID_KD,
         pidMode := BRICKTRONICS_MOTOR_PID_MODE_DISABLED,
         angleMultiplier := BRICKTRONICS_MOTOR_ANGLE_MULTIPLIER_DEFAULT,
         epsilon := BRICKTRONICS_MOTOR_EPSILON_DEFAULT,
         pidSampleTime := BRICKTRONICS_MOTOR_PID_SAMPLE_TIME_MS,
         pidOutputLimits := (- 255, 255)\<rparr>"

subsection \<open>Pins and the raw drive\<close>

definition digitalWrite :: "8 word \<Rightarrow> pin_signal \<Rightarrow> 'p motor \<Rightarrow> 'p motor" where
  "digitalWrite pin v st =
     st\<lparr>pins := (pins st)(pin := v), calls := DigitalWrite pin v # calls st\<rparr>"

definition analogWrite :: "8 word \<Rightarrow> int \<Rightarrow> 'p motor \<Rightarrow> 'p motor" where
  "analogWrite pin v st =
     st\<lparr>pins := (pins st)(pin := PWM v), calls := AnalogWrite pin v # calls st\<rparr>"

definition stop :: "'p motor \<Rightarrow> 'p motor" where
  "stop st =
     (let st1 = digitalWrite (enPin st) LOW st;
          st2 = digitalWrite (dirPin st1) LOW st1
      in digitalWrite (pwmPin st2) LOW st2)"

definition rawSetSpeed :: "16 word \<Rightarrow> 'p motor \<Rightarrow> 'p motor" where
  "rawSetSpeed s st =
     (let st0 = st\<lparr>rawSpeed := s\<rparr>
      in if s = 0 then stop st0
         else if s <s 0 then
           (let st1 = digitalWrite (dirPin st0) HIGH st0;
                st2 = analogWrite (pwmPin st1) (255 + sint s) st1
            in digitalWrite (enPin st2) HIGH st2)
         else
           (let st1 = digitalWrite (dirPin st0) LOW st0;
                st2 = analogWrite (pwmPin st1) (sint s) st1
            in digitalWrite (enPin st2) HIGH st2))"

definition rawGetSpeed :: "'p motor \<Rightarrow> 16 word" where
  "rawGetSpeed st = rawSpeed st"

subsection \<open>The world between two readings\<close>

text \<open>
  Before the program reads the encoder or the clock, the world has moved on: \<open>elapse\<close>
  puts the tick count and the millisecond counter of that moment into the state.
\<close>

definition elapse :: "'p env \<Rightarrow> 'p motor \<Rightarrow> 'p motor" where
  "elapse E st = st\<lparr>encoder := fst (physics E st), clock := snd (physics E st)\<rparr>"

definition millis :: "'p motor \<Rightarrow> 32 word" where
  "millis st = clock st"

subsection \<open>Position\<close>

definition getPosition :: "'p motor \<Rightarrow> 32 word" where
  "getPosition st = encoder st"

definition setPosition :: "32 word \<Rightarrow> 'p motor \<Rightarrow> 'p motor" where
  "setPosition pos st = st\<lparr>encoder := pos\<rparr>"

text \<open>
  In \<open>abs(getPosition() - position)\<close> the macro calls \<open>getPosition()\<close> twice: the first
  reading decides the sign, the second gives the magnitude, and the world moves before
  each of them. \<open>_epsilon\<close> is a \<open>uint8_t\<close>; in the comparison it is widened to the
  \<open>int32_t\<close> of the left side. The function returns its answer and the state after the
  two readings.
\<close>

definition settledAtPosition ::
  "'p env \<Rightarrow> 'p motor \<Rightarrow> 32 word \<Rightarrow> fault + bool \<times> 'p motor" where
  "settledAtPosition E st position =
     (let st1 = elapse E st
      in case i32_sub (getPosition st1) position of
           Inl f \<Rightarrow> Inl f
         | Inr d1 \<Rightarrow>
             (let st2 = elapse E st1
              in case i32_sub (getPosition st2) position of
                   Inl f \<Rightarrow> Inl f
                 | Inr d2 \<Rightarrow>
                     (case (if 0 <s d1 then Inr d2 else i32_neg d2) of
                        Inl f \<Rightarrow> Inl f
                      | Inr a \<Rightarrow>
                          Inr (a <s ucast (epsilon st2)
                               \<and> double_abs (pidOutput st2)
                                   < BRICKTRONICS_MOTOR_PID_OUTPUT_SETTLED_THRESHOLD,
                               st2))))"

definition setEpsilon :: "8 word \<Rightarrow> 'p motor \<Rightarrow> 'p motor" where
  "setEpsilon e st = st\<lparr>epsilon := e\<rparr>"

definition getEpsilon :: "'p motor \<Rightarrow> 8 word" where
  "getEpsilon st = epsilon st"

subsection \<open>Gains\<close>

definition pid_SetTunings :: "real \<Rightarrow> real \<Rightarrow> real \<Rightarrow> 'p motor \<Rightarrow> 'p motor" where
  "pid_SetTunings Kp Ki Kd st =
     st\<lparr>pidTunings := (Kp, Ki, Kd), calls := PidSetTunings Kp Ki Kd # calls st\<rparr>"

definition pidUpdateTuningsConservative :: "real \<Rightarrow> 'p motor \<Rightarrow> 'p motor" where
  "pidUpdateTuningsConservative divisor st =
     pid_SetTunings (pidKp st / divisor) (pidKi st / divisor) (pidKd st / divisor) st"

definition pidUpdateTunings :: "'p motor \<Rightarrow> 'p motor" where
  "pidUpdateTunings st = pid_SetTunings (pidKp st) (pidKi st) (pidKd st) st"

definition pidSetTunings :: "real \<Rightarrow> real \<Rightarrow> real \<Rightarrow> 'p motor \<Rightarrow> 'p motor" where
  "pidSetTunings Kp Ki Kd st = pidUpdateTunings (st\<lparr>pidKp := Kp, pidKi := Ki, pidKd := Kd\<rparr>)"

subsection \<open>The periodic update\<close>

definition pid_Compute :: "'p env \<Rightarrow> 'p motor \<Rightarrow> 'p motor" where
  "pid_Compute E st =
     st\<lparr>pidMemory := fst (Compute E st), pidOutput := snd (Compute E st),
        calls := PidCompute # calls st\<rparr>"

definition update :: "'p env \<Rightarrow> 'p motor \<Rightarrow> fault + 'p motor" where
  "update E st =
     (if pidMode st = BRICKTRONICS_MOTOR_PID_MODE_POSITION then
        (let st1 = elapse E st;
             st2 = st1\<lparr>pidInput := i32_to_double (encoder st1)\<rparr>;
             st3 = (if double_abs (pidInput st2 - pidSetpoint st2) < 5
                    then pidUpdateTuningsConservative 8 st2
                    else pidUpdateTunings st2);
             st4 = pid_Compute E st3
         in case double_to_i16 (pidOutput st4) of
              Inl f \<Rightarrow> Inl f
            | Inr s \<Rightarrow> Inr (rawSetSpeed s st4))
      else if pidMode st = BRICKTRONICS_MOTOR_PID_MODE_SPEED then Inr st
      else Inr st)"

subsection \<open>Going to a position\<close>

definition goToPosition :: "32 word \<Rightarrow> 'p motor \<Rightarrow> 'p motor" where
  "goToPosition position st =
     st\<lparr>pidMode := BRICKTRONICS_MOTOR_PID_MODE_POSITION,
        pidSetpoint := i32_to_double position\<rparr>"

text \<open>
  The two waiting loops need not end. They are run with fuel, one unit for each test of
  the loop condition: \<open>None\<close> says the fuel ran out, \<open>Some (Inl f)\<close> that the run met
  undefined behaviour, \<open>Some (Inr st)\<close> that the loop was left in state \<open>st\<close>.
\<close>

fun goToPositionWait_loop ::
  "'p env \<Rightarrow> nat \<Rightarrow> 32 word \<Rightarrow> 'p motor \<Rightarrow> (fault + 'p motor) option" where
  "goToPositionWait_loop E 0 position st = None"
| "goToPositionWait_loop E (Suc n) position st =
     (case settledAtPosition E st position of
        Inl f \<Rightarrow> Some (Inl f)
      | Inr (settled, st1) \<Rightarrow>
          if \<not> settled then
            (case update E st1 of
               Inl f \<Rightarrow> Some (Inl f)
             | Inr st2 \<Rightarrow> goToPositionWait_loop E n position st2)
          else Some (Inr st1))"

definition goToPositionWait ::
  "'p env \<Rightarrow> nat \<Rightarrow> 32 word \<Rightarrow> 'p motor \<Rightarrow> (fault + 'p motor) option" where
  "goToPositionWait E fuel position st =
     (case goToPositionWait_loop E fuel position (goToPosition position st) of
        None \<Rightarrow> None
      | Some (Inl f) \<Rightarrow> Some (Inl f)
      | Some (Inr st1) \<Rightarrow> Some (Inr (stop st1)))"

text \<open>
  In the loop with a deadline \<open>&&\<close> reads the clock only when the motor has not settled.
  \<open>timeoutMS += millis()\<close> is unsigned 32-bit addition and wraps.
\<close>

fun goToPositionWaitTimeout_loop ::
  "'p env \<Rightarrow> nat \<Rightarrow> 32 word \<Rightarrow> 32 word \<Rightarrow> 'p motor \<Rightarrow> (fault + 'p motor) option" where
  "goToPositionWaitTimeout_loop E 0 position timeoutMS st = None"
| "goToPositionWaitTimeout_loop E (Suc n) position timeoutMS st =
     (case settledAtPosition E st position of
        Inl f \<Rightarrow> Some (Inl f)
      | Inr (settled, st1) \<Rightarrow>
          if \<not> settled then
            (let st2 = elapse E st1
             in if millis st2 < timeoutMS then
                  (case update E st2 of
                     Inl f \<Rightarrow> Some (Inl f)
                   | Inr st3 \<Rightarrow> goToPositionWaitTimeout_loop E n position timeoutMS st3)
                else Some (Inr st2))
          else Some (Inr st1))"

definition goToPositionWaitTimeout ::
  "'p env \<Rightarrow> nat \<Rightarrow> 32 word \<Rightarrow> 32 word \<Rightarrow> 'p motor \<Rightarrow> (fault + bool \<times> 'p motor) option" where
  "goToPositionWaitTimeout E fuel position timeoutMS st =
     (let st1 = elapse E (goToPosition position st);
          deadline = timeoutMS + millis st1
      in case goToPositionWaitTimeout_loop E fuel position deadline st1 of
           None \<Rightarrow> None
         | Some (Inl f) \<Rightarrow> Some (Inl f)
         | Some (Inr st2) \<Rightarrow>
             (let st3 = elapse E (stop st2)
              in if millis st3 \<ge> deadline then Some (Inr (False, st3))
                 else Some (Inr (True, st3))))"

subsection \<open>Angles\<close>

definition getAngle :: "'p motor \<Rightarrow> fault + 16 word" where
  "getAngle st =
     (case i32_div (getPosition st) (scast (angleMultiplier st)) of
        Inl f \<Rightarrow> Inl f
      | Inr q \<Rightarrow>
          (case i32_rem q 360 of
             Inl f \<Rightarrow> Inl f
           | Inr r \<Rightarrow> Inr (ucast r)))"

definition setAngle :: "32 word \<Rightarrow> 'p motor \<Rightarrow> fault + 'p motor" where
  "setAngle angle st =
     (case i32_rem angle 360 of
        Inl f \<Rightarrow> Inl f
      | Inr r \<Rightarrow>
          (case i32_mul r (scast (angleMultiplier st)) of
             Inl f \<Rightarrow> Inl f
           | Inr pos \<Rightarrow> Inr (setPosition pos st)))"

text \<open>\<open>multiplier << 1\<close> is stored back into an \<open>int8_t\<close>, which keeps the low 8 bits.\<close>

definition setAngleOutputMultiplier :: "8 word \<Rightarrow> 'p motor \<Rightarrow> 'p motor" where
  "setAngleOutputMultiplier multiplier st = st\<lparr>angleMultiplier := push_bit 1 multiplier\<rparr>"

text \<open>The two \<open>while\<close> loops of \<open>_getDestPositionFromAngle\<close> on the \<open>int16_t\<close> delta.\<close>

function delta_above_180 :: "16 word \<Rightarrow> 16 word" where
  "delta_above_180 delta = (if 180 <s delta then delta_above_180 (delta - 360) else delta)"
  by pat_completeness auto
termination
proof (relation "measure (\<lambda>d. nat (sint d + 32768))")
  show "wf (measure (\<lambda>d :: 16 word. nat (sint d + 32768)))"
    by simp
next
  fix delta :: "16 word"
  assume a: "180 <s delta"
  have b: "sint delta \<le> 32767"
    using sint_lt [of delta] by simp
  have "sint (delta - 360) = sint delta - 360"
    using a b by (simp add: word_sless_alt sint_word_ariths signed_take_bit_int_eq_self)
  then show "(delta - 360, delta) \<in> measure (\<lambda>d. nat (sint d + 32768))"
    using a by (simp add: word_sless_alt)
qed

function delta_below_minus_180 :: "16 word \<Rightarrow> 16 word" where
  "delta_below_minus_180 delta =
     (if delta <s - 180 then delta_below_minus_180 (delta + 360) else delta)"
  by pat_completeness auto
termination
proof (relation "measure (\<lambda>d. nat (32767 - sint d))")
  show "wf (measure (\<lambda>d :: 16 word. nat (32767 - sint d)))"
    by simp
next
  fix delta :: "16 word"
  assume a: "delta <s - 180"
  have b: "- 32768 \<le> sint delta"
    using sint_ge [of delta] by simp
  have "sint (delta + 360) = sint delta + 360"
    using a b by (simp add: word_sless_alt sint_word_ariths signed_take_bit_int_eq_self)
  then show "(delta + 360, delta) \<in> measure (\<lambda>d. nat (32767 - sint d))"
    using a by (simp add: word_sless_alt)
qed

text \<open>
  \<open>angleDelta\<close> is the value of the local variable \<open>delta\<close> after the two loops. The
  difference \<open>(angle % 360) - getAngle()\<close> is computed in \<open>int32_t\<close> (the \<open>uint16_t\<close> is
  widened without sign) and then stored into the \<open>int16_t\<close>.
\<close>

definition angleDelta :: "'p motor \<Rightarrow> 32 word \<Rightarrow> fault + 16 word" where
  "angleDelta st angle =
     (case i32_rem angle 360 of
        Inl f \<Rightarrow> Inl f
      | Inr r \<Rightarrow>
          (case getAngle st of
             Inl f \<Rightarrow> Inl f
           | Inr a \<Rightarrow>
               (case i32_sub r (ucast a) of
                  Inl f \<Rightarrow> Inl f
                | Inr d \<Rightarrow> Inr (delta_below_minus_180 (delta_above_180 (ucast d))))))"

definition getDestPositionFromAngle :: "'p motor \<Rightarrow> 32 word \<Rightarrow> fault + 32 word" where
  "getDestPositionFromAngle st angle =
     (case angleDelta st angle of
        Inl f \<Rightarrow> Inl f
      | Inr delta \<Rightarrow>
          (case int_mul delta (scast (angleMultiplier st)) of
             Inl f \<Rightarrow> Inl f
           | Inr m \<Rightarrow> i32_add (getPosition st) (scast m)))"

definition goToAngle :: "32 word \<Rightarrow> 'p motor \<Rightarrow> fault + 'p motor" where
  "goToAngle angle st =
     (case getDestPositionFromAngle st angle of
        Inl f \<Rightarrow> Inl f
      | Inr position \<Rightarrow> Inr (goToPosition position st))"

section \<open>A test bench\<close>

text \<open>
  Concrete states and worlds on which the functions are run: a motor built by the
  constructor over zeroed memory, a world in which nothing moves and the clock stands
  still, one in which only the clock advances, by one millisecond between two readings,
  and one in which the shaft is found at a given tick count and the PID object answers
  with a given output.
\<close>

definition powered_up :: "unit motor" where
  "powered_up =
     \<lparr>enPin = 0, dirPin = 0, pwmPin = 0, enabled = False, rawSpeed = 0, pidMode = 0,
      pidSetpoint = 0, pidInput = 0, pidOutput = 0, pidKp = 0, pidKi = 0, pidKd = 0,
      angleMultiplier = 0, epsilon = 0, encoder = 0, pidTunings = (0, 0, 0),
      pidSampleTime = 0, pidOutputLimits = (0, 0), pidMemory = (),
      pins = (\<lambda>pin. LOW), clock = 0, calls = []\<rparr>"

definition bench :: "unit motor" where
  "bench = BricktronicsMotor 79 78 10 powered_up"

definition still :: "unit env" where
  "still = \<lparr>physics = (\<lambda>st. (encoder st, clock st)), Compute = (\<lambda>st. ((), pidOutput st))\<rparr>"

definition ticking :: "unit env" where
  "ticking = \<lparr>physics = (\<lambda>st. (encoder st, clock st + 1)), Compute = (\<lambda>st. ((), 0))\<rparr>"

definition arriving :: "32 word \<Rightarrow> real \<Rightarrow> unit env" where
  "arriving ticks out =
     \<lparr>physics = (\<lambda>st. (ticks, clock st + 1)), Compute = (\<lambda>st. ((), out))\<rparr>"

section \<open>Facts about the arithmetic\<close>

lemma sint_i32:
  "- 2147483648 \<le> x \<Longrightarrow> x \<le> 2147483647 \<Longrightarrow> sint (word_of_int x :: 32 word) = x"
  by (simp add: sint_sbintrunc' signed_take_bit_int_eq_self)

lemma i32_checked_Inr:
  assumes "- 2147483648 \<le> x" and "x \<le> 2147483647"
  obtains w where "i32_checked x = Inr w" and "sint w = x"
  using assms sint_i32 [of x] by (simp add: i32_checked_def)

lemma signed_take_bit_31_small:
  "0 \<le> k \<Longrightarrow> k < 65536 \<Longrightarrow> signed_take_bit 31 k = (k :: int)"
  by (simp add: signed_take_bit_int_eq_self_iff)

lemma sint_ucast_u8: "sint (ucast (e :: 8 word) :: 32 word) = uint e"
proof -
  have "uint e < 65536"
    using uint_bounded [of e] by simp
  then have "signed_take_bit 31 (uint e) = uint e"
    by (rule signed_take_bit_31_small [OF uint_nonnegative])
  then show ?thesis
    by (simp add: signed_ucast_eq)
qed

lemma sint_ucast_u16: "sint (ucast (e :: 16 word) :: 32 word) = uint e"
proof -
  have "uint e < 65536"
    using uint_bounded [of e] by simp
  then have "signed_take_bit 31 (uint e) = uint e"
    by (rule signed_take_bit_31_small [OF uint_nonnegative])
  then show ?thesis
    by (simp add: signed_ucast_eq)
qed

lemma sint_scast_8_32: "sint (scast (m :: 8 word) :: 32 word) = sint m"
  using sint_ge [of m] sint_lt [of m]
  by (simp add: signed_scast_eq signed_take_bit_int_eq_self)

lemma sint_scast_8_16: "sint (scast (m :: 8 word) :: 16 word) = sint m"
  using sint_ge [of m] sint_lt [of m]
  by (simp add: signed_scast_eq signed_take_bit_int_eq_self)

lemma sint_scast_16_32: "sint (scast (m :: 16 word) :: 32 word) = sint m"
  using sint_ge [of m] sint_lt [of m]
  by (simp add: signed_scast_eq signed_take_bit_int_eq_self)

lemma sint8_bounds: "- 128 \<le> sint (m :: 8 word) \<and> sint m \<le> 127"
  using sint_ge [of m] sint_lt [of m] by simp

lemma sint16_bounds: "- 32768 \<le> sint (m :: 16 word) \<and> sint m \<le> 32767"
  using sint_ge [of m] sint_lt [of m] by simp

lemma sint32_bounds: "- 2147483648 \<le> sint (m :: 32 word) \<and> sint m \<le> 2147483647"
  using sint_ge [of m] sint_lt [of m] by simp

lemma sint_i16:
  "- 32768 \<le> x \<Longrightarrow> x \<le> 32767 \<Longrightarrow> sint (word_of_int x :: 16 word) = x"
  by (simp add: sint_sbintrunc' signed_take_bit_int_eq_self)

lemma scast_8_32_eq_0: "(scast (m :: 8 word) :: 32 word) = 0 \<longleftrightarrow> m = 0"
proof
  assume "(scast m :: 32 word) = 0"
  then have "sint (scast m :: 32 word) = 0" by simp
  then have "sint m = 0" by (simp add: sint_scast_8_32)
  then have "word_of_int (sint m) = (word_of_int 0 :: 8 word)" by (simp only:)
  then show "m = 0" by simp
qed simp

lemma smod_360_bounds: "- 360 < (x :: int) smod 360 \<and> x smod 360 < 360"
  using smod_int_range [where a = x and b = 360] by auto

lemma smod_360_cong: "360 dvd (x - x smod 360)" for x :: int
  by (simp add: minus_smod_eq_sdiv_mult)

lemma sdiv_in_range:
  assumes "- 2147483648 \<le> a" "a \<le> 2147483647" "\<not> (a = - 2147483648 \<and> b = - 1)"
  shows "- 2147483648 \<le> a sdiv b \<and> a sdiv b \<le> (2147483647 :: int)"
proof (cases "a = - 2147483648")
  case False
  then have "\<bar>a\<bar> \<le> 2147483647" using assms by simp
  moreover have "a sdiv b \<in> {- \<bar>a\<bar>..\<bar>a\<bar>}" by (rule sdiv_int_range)
  ultimately show ?thesis by auto
next
  case True
  then have nb: "b \<noteq> - 1" using assms by simp
  have r: "a sdiv b \<in> {- \<bar>a\<bar>..\<bar>a\<bar>}" by (rule sdiv_int_range)
  have "a sdiv b \<noteq> 2147483648"
  proof
    assume e: "a sdiv b = 2147483648"
    have "a sdiv b = - a" using e True by simp
    moreover have "a \<noteq> 0" using True by simp
    ultimately have "b = - 1" using int_sdiv_negated_is_minus1 [of a b] by blast
    with nb show False by simp
  qed
  with r True show ?thesis by auto
qed

lemma ucast_32_16: "(ucast (w :: 32 word) :: 16 word) = word_of_int (sint w)"
proof -
  have "(ucast (word_of_int (sint w) :: 32 word) :: 16 word) = word_of_int (sint w)"
    by (rule ucast_down_wi) (simp add: is_down)
  then show ?thesis by simp
qed

lemma dvd_360_down:
  fixes x d :: int
  assumes "360 dvd (x - (d - 360))"
  shows "360 dvd (x - d)"
proof -
  have "x - d = (x - (d - 360)) - 360"
    by simp
  moreover have "360 dvd (x - (d - 360)) - 360"
    using assms by (rule dvd_diff) simp
  ultimately show ?thesis
    by (simp only:)
qed

lemma dvd_360_up:
  fixes x d :: int
  assumes "360 dvd (x - (d + 360))"
  shows "360 dvd (x - d)"
proof -
  have "x - d = (x - (d + 360)) + 360"
    by simp
  moreover have "360 dvd (x - (d + 360)) + 360"
    using assms by (rule dvd_add) simp
  ultimately show ?thesis
    by (simp only:)
qed

lemma product_fits_int:
  fixes a b :: int
  assumes "- 180 \<le> a" "a \<le> 180" "- 128 \<le> b" "b \<le> 127"
  shows "- 32768 \<le> a * b \<and> a * b \<le> 32767"
proof -
  have "\<bar>a\<bar> * \<bar>b\<bar> \<le> 180 * 128"
    using assms by (intro mult_mono) simp_all
  then have "\<bar>a * b\<bar> \<le> 23040"
    by (simp add: abs_mult)
  then show ?thesis
    by (simp add: abs_le_iff)
qed

lemma mult_sdiv_cancel:
  fixes x m :: int
  assumes "m \<noteq> 0"
  shows "(x * m) sdiv m = x"
proof -
  have a: "\<bar>x * m\<bar> div \<bar>m\<bar> = \<bar>x\<bar>"
    using assms by (simp add: abs_mult)
  have b: "sgn m * sgn m = 1"
    using assms by (simp add: sgn_if)
  have c: "sgn (x * m) * sgn m = sgn x"
    using b by (simp add: sgn_mult mult.assoc)
  show ?thesis
    by (simp add: signed_divide_int_def a c sgn_mult_abs)
qed

lemma smod_smod_360: "(x smod 360) smod 360 = x smod (360 :: int)"
proof -
  have "0 \<le> \<bar>x\<bar> mod 360" and "\<bar>x\<bar> mod 360 < 360"
    by simp_all
  then show ?thesis
    by (simp add: smod_int_alt_def sgn_if abs_if)
qed

section \<open>What each function leaves alone\<close>

lemma stop_pins:
  "pins (stop st) (enPin st) = LOW"
  "pins (stop st) (dirPin st) = LOW"
  "pins (stop st) (pwmPin st) = LOW"
  by (simp_all add: stop_def digitalWrite_def Let_def)

lemma stop_fields:
  "enPin (stop st) = enPin st" "dirPin (stop st) = dirPin st" "pwmPin (stop st) = pwmPin st"
  "rawSpeed (stop st) = rawSpeed st" "pidMode (stop st) = pidMode st"
  "encoder (stop st) = encoder st" "pidOutput (stop st) = pidOutput st"
  "epsilon (stop st) = epsilon st" "clock (stop st) = clock st"
  by (simp_all add: stop_def digitalWrite_def Let_def)

lemma elapse_fields:
  "enPin (elapse E st) = enPin st" "dirPin (elapse E st) = dirPin st"
  "pwmPin (elapse E st) = pwmPin st" "rawSpeed (elapse E st) = rawSpeed st"
  "pidMode (elapse E st) = pidMode st" "pins (elapse E st) = pins st"
  "pidOutput (elapse E st) = pidOutput st" "epsilon (elapse E st) = epsilon st"
  "clock (elapse E st) = snd (physics E st)" "encoder (elapse E st) = fst (physics E st)"
  by (simp_all add: elapse_def)

lemma rawSetSpeed_fields:
  "pidMode (rawSetSpeed s st) = pidMode st"
  "pidKp (rawSetSpeed s st) = pidKp st"
  "pidKi (rawSetSpeed s st) = pidKi st"
  "pidKd (rawSetSpeed s st) = pidKd st"
  "pidTunings (rawSetSpeed s st) = pidTunings st"
  "pidInput (rawSetSpeed s st) = pidInput st"
  "pidSetpoint (rawSetSpeed s st) = pidSetpoint st"
  "pidOutput (rawSetSpeed s st) = pidOutput st"
  "rawSpeed (rawSetSpeed s st) = s"
  "enPin (rawSetSpeed s st) = enPin st"
  "dirPin (rawSetSpeed s st) = dirPin st"
  "pwmPin (rawSetSpeed s st) = pwmPin st"
  by (simp_all add: rawSetSpeed_def stop_def digitalWrite_def analogWrite_def Let_def)

lemma rawSetSpeed_calls: "\<exists>ws. calls (rawSetSpeed s st) = ws @ calls st"
  by (simp add: rawSetSpeed_def stop_def digitalWrite_def analogWrite_def Let_def)


section \<open>The settle check\<close>


text \<open>
  The answer of \<open>settledAtPosition\<close> in terms of its two readings \<open>p1\<close> and \<open>p2\<close>: the sign
  comes from the first, the magnitude from the second.
\<close>

lemma settledAtPosition_value:
  assumes p1: "getPosition (elapse E st) = p1"
    and p2: "getPosition (elapse E (elapse E st)) = p2"
    and r1: "- 2147483648 \<le> sint p1 - sint p" "sint p1 - sint p \<le> 2147483647"
    and r2: "- 2147483648 < sint p2 - sint p" "sint p2 - sint p \<le> 2147483647"
  shows "settledAtPosition E st p =
           Inr ((if 0 < sint p1 - sint p then sint p2 - sint p else - (sint p2 - sint p))
                  < uint (epsilon st) \<and> \<bar>pidOutput st\<bar> < 30,
                elapse E (elapse E st))"
proof -
  let ?d1 = "sint p1 - sint p"
  let ?d2 = "sint p2 - sint p"
  obtain w1 where w1: "i32_sub p1 p = Inr w1" and s1: "sint w1 = ?d1"
    unfolding i32_sub_def using r1 by (auto intro: i32_checked_Inr [of ?d1])
  obtain w2 where w2: "i32_sub p2 p = Inr w2" and s2: "sint w2 = ?d2"
    unfolding i32_sub_def using r2 by (auto intro: i32_checked_Inr [of ?d2])
  obtain a where a: "(if 0 <s w1 then Inr w2 else i32_neg w2) = Inr a"
    and sa: "sint a = (if 0 < ?d1 then ?d2 else - ?d2)"
  proof (cases "0 < ?d1")
    case True
    then show ?thesis
      using that [of w2] s1 s2 by (simp add: word_sless_alt)
  next
    case False
    then show ?thesis
      using that r2 s1 s2 i32_checked_Inr [of "- ?d2"]
      by (auto simp add: i32_neg_def word_sless_alt)
  qed
  have se: "sint (ucast (epsilon st) :: 32 word) = uint (epsilon st)"
    by (rule sint_ucast_u8)
  have "settledAtPosition E st p =
      Inr (a <s ucast (epsilon (elapse E (elapse E st)))
           \<and> double_abs (pidOutput (elapse E (elapse E st)))
               < BRICKTRONICS_MOTOR_PID_OUTPUT_SETTLED_THRESHOLD,
           elapse E (elapse E st))"
    unfolding settledAtPosition_def Let_def p1 p2 w1 w2 sum.case a ..
  then show ?thesis
    by (simp add: word_sless_alt sa se double_abs_def elapse_fields(7,8)
        BRICKTRONICS_MOTOR_PID_OUTPUT_SETTLED_THRESHOLD_def abs_if)
qed


section \<open>The waiting loops\<close>


lemma wait_loop_settled:
  "settledAtPosition E s p = Inr (True, s1)
   \<Longrightarrow> goToPositionWait_loop E (Suc n) p s = Some (Inr s1)"
  by simp

lemma wait_loop_step:
  "settledAtPosition E s p = Inr (False, s1) \<Longrightarrow> update E s1 = Inr s2
   \<Longrightarrow> goToPositionWait_loop E (Suc n) p s = goToPositionWait_loop E n p s2"
  by simp

lemma timeout_loop_settled:
  "settledAtPosition E s p = Inr (True, s1)
   \<Longrightarrow> goToPositionWaitTimeout_loop E (Suc n) p deadline s = Some (Inr s1)"
  by simp

lemma timeout_loop_deadline:
  "settledAtPosition E s p = Inr (False, s1)
   \<Longrightarrow> \<not> millis (elapse E s1) < deadline
   \<Longrightarrow> goToPositionWaitTimeout_loop E (Suc n) p deadline s = Some (Inr (elapse E s1))"
  by (simp add: Let_def)

lemma timeout_loop_step:
  "settledAtPosition E s p = Inr (False, s1)
   \<Longrightarrow> millis (elapse E s1) < deadline
   \<Longrightarrow> update E (elapse E s1) = Inr s3
   \<Longrightarrow> goToPositionWaitTimeout_loop E (Suc n) p deadline s
       = goToPositionWaitTimeout_loop E n p deadline s3"
  by (simp add: Let_def)

lemma timeout_finish:
  "goToPositionWaitTimeout_loop E fuel p (timeoutMS + millis (elapse E (goToPosition p st)))
       (elapse E (goToPosition p st)) = Some (Inr sx)
   \<Longrightarrow> goToPositionWaitTimeout E fuel p timeoutMS st
       = Some (Inr (millis (elapse E (stop sx))
                      < timeoutMS + millis (elapse E (goToPosition p st)),
                    elapse E (stop sx)))"
  by (auto simp add: goToPositionWaitTimeout_def Let_def not_le)

text \<open>One update in position mode, when \<open>Compute\<close> answers \<open>out\<close>.\<close>

lemma update_position_step:
  assumes "pidMode s = BRICKTRONICS_MOTOR_PID_MODE_POSITION"
    and "\<And>x. snd (Compute E x) = out"
    and "double_to_i16 out = Inr v"
  shows "\<exists>s'. update E s = Inr s' \<and> pidOutput s' = out \<and> rawSpeed s' = v
           \<and> encoder s' = fst (physics E s) \<and> clock s' = snd (physics E s)
           \<and> epsilon s' = epsilon s"
  using assms
  by (simp add: update_def Let_def pid_Compute_def elapse_def rawSetSpeed_def stop_def
      digitalWrite_def analogWrite_def pidUpdateTuningsConservative_def pidUpdateTunings_def
      pid_SetTunings_def)

section \<open>Angles\<close>

text \<open>
  What \<open>getAngle()\<close> returns whenever the division is defined: the quotient of position
  and multiplier, its remainder by 360 with the sign of the quotient, kept to 16 bits.
\<close>

lemma getAngle_value:
  assumes "angleMultiplier st \<noteq> 0"
    and "\<not> (sint (getPosition st) = - 2147483648 \<and> sint (angleMultiplier st) = - 1)"
  shows "getAngle st =
    Inr (word_of_int ((sint (getPosition st) sdiv sint (angleMultiplier st)) smod 360))"
proof -
  let ?q = "sint (getPosition st) sdiv sint (angleMultiplier st)"
  have "- 2147483648 \<le> ?q \<and> ?q \<le> 2147483647"
    using assms(2) sint32_bounds [of "getPosition st"] by (intro sdiv_in_range) auto
  then obtain q where q: "i32_checked ?q = Inr q" and sq: "sint q = ?q"
    using i32_checked_Inr [of ?q] by blast
  have d: "i32_div (getPosition st) (scast (angleMultiplier st)) = Inr q"
    using assms(1) q by (simp add: i32_div_def scast_8_32_eq_0 sint_scast_8_32)
  obtain r where r: "i32_checked (?q smod 360) = Inr r" and sr: "sint r = ?q smod 360"
    using i32_checked_Inr [of "?q smod 360"] smod_360_bounds [of ?q] by force
  have m: "i32_rem q 360 = Inr r"
    using r by (simp add: i32_rem_def sq)
  show ?thesis
    by (simp add: getAngle_def d m ucast_32_16 sr)
qed

lemma getAngle_nonnegative:
  assumes "angleMultiplier st \<noteq> 0"
    and no: "\<not> (sint (getPosition st) = - 2147483648 \<and> sint (angleMultiplier st) = - 1)"
    and "0 \<le> sint (getPosition st) sdiv sint (angleMultiplier st)"
  shows "\<exists>a. getAngle st = Inr a
           \<and> uint a = (sint (getPosition st) sdiv sint (angleMultiplier st)) mod 360
           \<and> uint a < 360"
proof -
  let ?q = "sint (getPosition st) sdiv sint (angleMultiplier st)"
  have e: "?q smod 360 = ?q mod 360"
    using assms(3) by (simp add: smod_mod_positive)
  have b: "0 \<le> ?q mod 360" "?q mod 360 < 360"
    by simp_all
  have "uint (word_of_int (?q mod 360) :: 16 word) = ?q mod 360"
    using b by (simp add: uint_word_of_int take_bit_int_eq_self)
  with getAngle_value [OF assms(1) no] b(2) show ?thesis
    by (simp add: e)
qed

text \<open>
  \<open>setAngle(angle)\<close> followed by \<open>getAngle()\<close> gives the remainder of \<open>angle\<close> by 360, with
  the sign of \<open>angle\<close>, kept to 16 bits.
\<close>

lemma setAngle_getAngle:
  assumes "angleMultiplier st \<noteq> 0"
  shows "\<exists>st'. setAngle angle st = Inr st'
           \<and> getAngle st' = Inr (word_of_int (sint angle smod 360))"
proof -
  let ?r = "sint angle smod 360"
  let ?m = "sint (angleMultiplier st)"
  have m0: "?m \<noteq> 0"
    using assms by (simp add: signed_eq_0_iff)
  obtain r where r: "i32_checked ?r = Inr r" and sr: "sint r = ?r"
    using i32_checked_Inr [of ?r] smod_360_bounds [of "sint angle"] by force
  have rem: "i32_rem angle 360 = Inr r"
    using r by (simp add: i32_rem_def)
  have "\<bar>?r\<bar> * \<bar>?m\<bar> \<le> 360 * 128"
    using smod_360_bounds [of "sint angle"] sint8_bounds [of "angleMultiplier st"]
    by (intro mult_mono) (simp_all add: abs_le_iff)
  then have pb: "- 46080 \<le> ?r * ?m \<and> ?r * ?m \<le> 46080"
    by (simp add: abs_le_iff flip: abs_mult)
  then obtain pos where p: "i32_checked (?r * ?m) = Inr pos" and sp: "sint pos = ?r * ?m"
    using i32_checked_Inr [of "?r * ?m"] by force
  have sa: "setAngle angle st = Inr (setPosition pos st)"
    using p by (simp add: setAngle_def rem i32_mul_def sr sint_scast_8_32)
  have "getAngle (setPosition pos st) =
      Inr (word_of_int ((sint (getPosition (setPosition pos st))
                sdiv sint (angleMultiplier (setPosition pos st))) smod 360))"
    using assms pb by (intro getAngle_value) (simp_all add: setPosition_def getPosition_def sp)
  then have "getAngle (setPosition pos st) = Inr (word_of_int (((?r * ?m) sdiv ?m) smod 360))"
    by (simp add: setPosition_def getPosition_def sp)
  then have "getAngle (setPosition pos st) = Inr (word_of_int ?r)"
    by (simp only: mult_sdiv_cancel [OF m0] smod_smod_360)
  with sa show ?thesis
    by blast
qed

text \<open>The two loops bring any \<open>int16_t\<close> into the range from -180 to 180, in steps of 360.\<close>

lemma sint_sub_360: "180 < sint (d :: 16 word) \<Longrightarrow> sint (d - 360) = sint d - 360"
  using sint16_bounds [of d]
  by (simp add: sint_word_ariths signed_take_bit_int_eq_self)

lemma sint_add_360: "sint (d :: 16 word) < - 180 \<Longrightarrow> sint (d + 360) = sint d + 360"
  using sint16_bounds [of d]
  by (simp add: sint_word_ariths signed_take_bit_int_eq_self)

lemma delta_above_180_props:
  "sint (delta_above_180 d) \<le> 180
   \<and> 360 dvd (sint (delta_above_180 d) - sint d)
   \<and> (- 180 \<le> sint d \<longrightarrow> - 180 \<le> sint (delta_above_180 d))"
proof (induction d rule: delta_above_180.induct)
  case (1 delta)
  show ?case
  proof (cases "180 <s delta")
    case True
    then have g: "180 < sint delta"
      by (simp add: word_sless_alt)
    have e: "delta_above_180 delta = delta_above_180 (delta - 360)"
      using True by (subst delta_above_180.simps) simp
    have s: "sint (delta - 360) = sint delta - 360"
      using g by (rule sint_sub_360)
    note ih = "1.IH" [OF True, THEN conjunct1] "1.IH" [OF True, THEN conjunct2, THEN conjunct1]
      "1.IH" [OF True, THEN conjunct2, THEN conjunct2]
    have "360 dvd (sint (delta_above_180 (delta - 360)) - sint delta)"
      using ih(2) unfolding s by (rule dvd_360_down)
    moreover have "- 180 \<le> sint (delta_above_180 (delta - 360))"
      using ih(3) g unfolding s by simp
    ultimately show ?thesis
      unfolding e using ih(1) by blast
  next
    case False
    then have e: "delta_above_180 delta = delta"
      by (subst delta_above_180.simps) simp
    from False show ?thesis
      unfolding e by (simp add: word_sless_alt)
  qed
qed

lemma delta_below_minus_180_props:
  "- 180 \<le> sint (delta_below_minus_180 d)
   \<and> 360 dvd (sint (delta_below_minus_180 d) - sint d)
   \<and> (sint d \<le> 180 \<longrightarrow> sint (delta_below_minus_180 d) \<le> 180)"
proof (induction d rule: delta_below_minus_180.induct)
  case (1 delta)
  show ?case
  proof (cases "delta <s - 180")
    case True
    then have g: "sint delta < - 180"
      by (simp add: word_sless_alt)
    have e: "delta_below_minus_180 delta = delta_below_minus_180 (delta + 360)"
      using True by (subst delta_below_minus_180.simps) simp
    have s: "sint (delta + 360) = sint delta + 360"
      using g by (rule sint_add_360)
    note ih = "1.IH" [OF True, THEN conjunct1] "1.IH" [OF True, THEN conjunct2, THEN conjunct1]
      "1.IH" [OF True, THEN conjunct2, THEN conjunct2]
    have "360 dvd (sint (delta_below_minus_180 (delta + 360)) - sint delta)"
      using ih(2) unfolding s by (rule dvd_360_up)
    moreover have "sint (delta_below_minus_180 (delta + 360)) \<le> 180"
      using ih(3) g unfolding s by simp
    ultimately show ?thesis
      unfolding e using ih(1) by blast
  next
    case False
    then have e: "delta_below_minus_180 delta = delta"
      by (subst delta_below_minus_180.simps) simp
    from False show ?thesis
      unfolding e by (simp add: word_sless_alt)
  qed
qed

lemma delta_normalised:
  "- 180 \<le> sint (delta_below_minus_180 (delta_above_180 d))
   \<and> sint (delta_below_minus_180 (delta_above_180 d)) \<le> 180
   \<and> 360 dvd (sint (delta_below_minus_180 (delta_above_180 d)) - sint d)"
proof -
  let ?a = "delta_above_180 d"
  let ?b = "delta_below_minus_180 ?a"
  note a = delta_above_180_props [of d, THEN conjunct1]
    delta_above_180_props [of d, THEN conjunct2, THEN conjunct1]
  note b = delta_below_minus_180_props [of ?a, THEN conjunct1]
    delta_below_minus_180_props [of ?a, THEN conjunct2, THEN conjunct1]
    delta_below_minus_180_props [of ?a, THEN conjunct2, THEN conjunct2, THEN mp, OF a(1)]
  have "360 dvd ((sint ?b - sint ?a) + (sint ?a - sint d))"
    using b(2) a(2) by (rule dvd_add)
  then have "360 dvd (sint ?b - sint d)"
    by (simp only: diff_add_cancel add_diff_eq)
  with b(1) b(3) show ?thesis
    by blast
qed

lemma angleDelta_value:
  assumes "angleMultiplier st \<noteq> 0"
    and "\<not> (sint (getPosition st) = - 2147483648 \<and> sint (angleMultiplier st) = - 1)"
  shows "\<exists>delta. angleDelta st angle = Inr delta
           \<and> - 180 \<le> sint delta \<and> sint delta \<le> 180
           \<and> 360 dvd (sint delta
                 - (sint angle - sint (getPosition st) sdiv sint (angleMultiplier st)))"
proof -
  let ?q = "sint (getPosition st) sdiv sint (angleMultiplier st)"
  let ?r = "sint angle smod 360"
  let ?a = "word_of_int (?q smod 360) :: 16 word"
  obtain r where r: "i32_checked ?r = Inr r" and sr: "sint r = ?r"
    using i32_checked_Inr [of ?r] smod_360_bounds [of "sint angle"] by force
  have rem: "i32_rem angle 360 = Inr r"
    using r by (simp add: i32_rem_def)
  have ga: "getAngle st = Inr ?a"
    using assms by (rule getAngle_value)
  have ua: "0 \<le> uint ?a" "uint ?a \<le> 65535"
    using uint_bounded [of ?a] by simp_all
  obtain d where d: "i32_checked (?r - uint ?a) = Inr d" and sd: "sint d = ?r - uint ?a"
    using i32_checked_Inr [of "?r - uint ?a"] smod_360_bounds [of "sint angle"] ua by force
  have sub: "i32_sub r (ucast ?a) = Inr d"
    using d by (simp add: i32_sub_def sr sint_ucast_u16)
  let ?d0 = "ucast d :: 16 word"
  have "?d0 = word_of_int (?r - uint ?a)"
    by (simp only: ucast_32_16 sd)
  also have "\<dots> = word_of_int ?r - word_of_int (uint ?a)"
    by (simp only: wi_hom_sub)
  also have "\<dots> = word_of_int ?r - ?a"
    by (simp only: word_of_int_uint)
  also have "\<dots> = word_of_int (?r - ?q smod 360)"
    by (simp only: wi_hom_sub)
  finally have d0: "?d0 = word_of_int (?r - ?q smod 360)" .
  have s0: "sint ?d0 = ?r - ?q smod 360"
    unfolding d0 using smod_360_bounds [of "sint angle"] smod_360_bounds [of ?q]
    by (intro sint_i16) linarith+
  let ?delta = "delta_below_minus_180 (delta_above_180 ?d0)"
  have ad: "angleDelta st angle = Inr ?delta"
    by (simp add: angleDelta_def rem ga sub)
  note n = delta_normalised [of ?d0]
  have c1: "360 dvd (sint angle - ?r)"
    by (rule smod_360_cong)
  have c2: "360 dvd (?q - ?q smod 360)"
    by (rule smod_360_cong)
  have "360 dvd ((sint ?delta - sint ?d0) + ((?q - ?q smod 360) - (sint angle - ?r)))"
    using n [THEN conjunct2, THEN conjunct2] dvd_diff [OF c2 c1] by (rule dvd_add)
  moreover have "(sint ?delta - sint ?d0) + ((?q - ?q smod 360) - (sint angle - ?r))
      = sint ?delta - (sint angle - ?q)"
    unfolding s0 by (simp add: algebra_simps)
  ultimately have "360 dvd (sint ?delta - (sint angle - ?q))"
    by (simp only:)
  with ad n [THEN conjunct1] n [THEN conjunct2, THEN conjunct1] show ?thesis
    by blast
qed

lemma getDestPositionFromAngle_value:
  assumes "angleDelta st angle = Inr delta"
    and "- 180 \<le> sint delta" and "sint delta \<le> 180"
  shows "getDestPositionFromAngle st angle
    = i32_checked (sint (getPosition st) + sint delta * sint (angleMultiplier st))"
proof -
  let ?p = "sint delta * sint (angleMultiplier st)"
  have b: "- 32768 \<le> ?p \<and> ?p \<le> 32767"
    using assms(2,3) sint8_bounds [of "angleMultiplier st"] by (intro product_fits_int) simp_all
  define mm :: "16 word" where "mm = word_of_int ?p"
  have sm: "sint mm = ?p"
    unfolding mm_def using b by (intro sint_i16) simp_all
  have m: "int_mul delta (scast (angleMultiplier st)) = Inr mm"
    using b by (simp add: int_mul_def sint_scast_8_16 mm_def)
  have s: "sint (scast mm :: 32 word) = ?p"
    by (simp only: sint_scast_16_32 sm)
  show ?thesis
    by (simp add: getDestPositionFromAngle_def assms(1) m i32_add_def s)
qed

lemmas angle_eval =
  getDestPositionFromAngle_def angleDelta_def getAngle_def setAngle_def setPosition_def
  getPosition_def setAngleOutputMultiplier_def goToAngle_def goToPosition_def
  i32_checked_def i32_add_def i32_sub_def i32_mul_def i32_div_def i32_rem_def int_mul_def
  i32_to_double_def

section \<open>Runs on the test bench\<close>

lemmas bench_fields =
  bench_def BricktronicsMotor_def powered_up_def goToPosition_def elapse_def getPosition_def
  arriving_def ticking_def still_def BRICKTRONICS_MOTOR_EPSILON_DEFAULT_def

lemma bench_update:
  "\<exists>st'. update (arriving 98 20) (goToPosition 100 bench) = Inr st'"
proof -
  have "pidMode (goToPosition 100 bench) = BRICKTRONICS_MOTOR_PID_MODE_POSITION"
    by (simp add: goToPosition_def)
  from update_position_step [of "goToPosition 100 bench" "arriving 98 20" 20 20, OF this]
  show ?thesis
    by (auto simp add: arriving_def double_to_i16_def)
qed

text \<open>
  The shaft is found at tick 100; the output left over from before is 50, so the first
  settle check fails, one update brings the output to 20, and the second check succeeds.
\<close>

lemma bench_wait:
  "\<exists>st'. goToPositionWait (arriving 100 20) 2 100 (bench\<lparr>pidOutput := 50\<rparr>) = Some (Inr st')
     \<and> rawSpeed st' = 20"
proof -
  let ?E = "arriving 100 20"
  let ?s0 = "goToPosition 100 (bench\<lparr>pidOutput := 50\<rparr>)"
  let ?s1 = "elapse ?E (elapse ?E ?s0)"
  have a: "settledAtPosition ?E ?s0 100 = Inr (False, ?s1)"
    by (subst settledAtPosition_value [where ?p1.0 = 100 and ?p2.0 = 100])
       (simp_all add: bench_fields)
  have m: "pidMode ?s1 = BRICKTRONICS_MOTOR_PID_MODE_POSITION"
    by (simp add: elapse_def goToPosition_def)
  obtain s2 where u: "update ?E ?s1 = Inr s2"
    and f: "pidOutput s2 = 20" "rawSpeed s2 = 20" "epsilon s2 = 5"
    using update_position_step [of ?s1 ?E 20 20, OF m]
    by (auto simp add: bench_fields double_to_i16_def)
  have b: "settledAtPosition ?E s2 100 = Inr (True, elapse ?E (elapse ?E s2))"
    by (subst settledAtPosition_value [where ?p1.0 = 100 and ?p2.0 = 100])
       (simp_all add: f elapse_def getPosition_def arriving_def)
  have "goToPositionWait_loop ?E 2 100 ?s0 = Some (Inr (elapse ?E (elapse ?E s2)))"
    unfolding numeral_2_eq_2
    by (simp only: wait_loop_step [OF a u] wait_loop_settled [OF b])
  then show ?thesis
    by (simp add: goToPositionWait_def f stop_fields elapse_fields)
qed

section \<open>The claims\<close>

text \<open>
  C1. The header documents \<open>getAngle()\<close> as returning the current angle, 0 to 359, and
  the specification asks for that at every position. Where the quotient of position and
  multiplier is not negative the result is that quotient modulo 360
  (\<open>getAngle_nonnegative\<close>). At a negative position it is not: \<open>/\<close> and \<open>%\<close> truncate
  towards zero, the remainder is negative, and the \<open>uint16_t\<close> result wraps around. A
  motor as constructed (multiplier 1) at position -10 reports the angle 65526.
\<close>

theorem getAngle_negative_position:
  "getAngle (setPosition (- 10) (BricktronicsMotor en dir pwm raw)) = Inr 65526"
  by (simp add: angle_eval BricktronicsMotor_def
      BRICKTRONICS_MOTOR_ANGLE_MULTIPLIER_DEFAULT_def)

text \<open>
  C2. The specification asks that \<open>setAngle(A)\<close> followed by \<open>getAngle()\<close> gives \<open>A\<close>
  brought into 0 to 359. The code gives the truncating remainder of \<open>A\<close> by 360, kept to 16 bits
  (\<open>setAngle_getAngle\<close>), which is the same for \<open>A\<close> from 0 upwards only. On a motor
  as constructed, \<open>setAngle(-90)\<close> sets the position to -90 and \<open>getAngle()\<close> then
  returns 65446, where the specification has 270.
\<close>

theorem setAngle_getAngle_negative:
  "setAngle (- 90) (BricktronicsMotor en dir pwm raw)
     = Inr (setPosition (- 90) (BricktronicsMotor en dir pwm raw))
   \<and> getAngle (setPosition (- 90) (BricktronicsMotor en dir pwm raw)) = Inr 65446"
  by (simp add: angle_eval BricktronicsMotor_def
      BRICKTRONICS_MOTOR_ANGLE_MULTIPLIER_DEFAULT_def)

text \<open>
  C3. The header says of \<open>goToPositionWaitTimeout\<close>: returns true if we made it to
  position, false if we had a timeout; the specification asks for true exactly when the
  motor settled at the target before the deadline. The code takes the result from
  \<open>millis()\<close>, read once more after \<open>stop()\<close>, and from a deadline added up in 32 bits.
  Two runs on the bench, the motor at rest within \<open>epsilon\<close> of tick 3 with output zero:
  with a timeout of 3 ms and a clock that advances by one millisecond between two
  readings, the deadline is 4, the settle check succeeds with the clock at 3, the reading
  after \<open>stop()\<close> is 4, and the result is false; with the clock standing at 1 and a timeout
  of 4294967295 ms the deadline wraps around to 0, and the result is false at once.
\<close>

theorem goToPositionWaitTimeout_settled_yet_false:
  "settledAtPosition ticking (elapse ticking (goToPosition 3 bench)) 3
     = Inr (True, elapse ticking (elapse ticking (elapse ticking (goToPosition 3 bench))))
   \<and> millis (elapse ticking (elapse ticking (elapse ticking (goToPosition 3 bench)))) = 3
   \<and> 3 + millis (elapse ticking (goToPosition 3 bench)) = 4
   \<and> goToPositionWaitTimeout ticking 1 3 3 bench
       = Some (Inr (False,
            elapse ticking (stop
              (elapse ticking (elapse ticking (elapse ticking (goToPosition 3 bench)))))))
   \<and> 4294967295 + millis (elapse still (goToPosition 3 (bench\<lparr>clock := 1\<rparr>))) = 0
   \<and> goToPositionWaitTimeout still 1 3 4294967295 (bench\<lparr>clock := 1\<rparr>)
       = Some (Inr (False,
            elapse still (stop
              (elapse still (elapse still (elapse still
                (goToPosition 3 (bench\<lparr>clock := 1\<rparr>))))))))"
proof -
  let ?s1 = "elapse ticking (goToPosition 3 bench)"
  let ?sx = "elapse ticking (elapse ticking ?s1)"
  have a: "settledAtPosition ticking ?s1 3 = Inr (True, ?sx)"
    by (subst settledAtPosition_value [where ?p1.0 = 0 and ?p2.0 = 0])
       (simp_all add: bench_fields)
  have c: "millis ?sx = 3" "3 + millis ?s1 = 4"
    by (simp_all add: millis_def bench_fields)
  have l: "goToPositionWaitTimeout_loop ticking 1 3 (3 + millis ?s1) ?s1 = Some (Inr ?sx)"
    unfolding One_nat_def by (rule timeout_loop_settled [OF a])
  have "\<not> millis (elapse ticking (stop ?sx)) < 3 + millis ?s1"
    by (simp add: millis_def elapse_def ticking_def stop_fields goToPosition_def bench_def
        BricktronicsMotor_def powered_up_def)
  with timeout_finish [OF l]
  have race: "goToPositionWaitTimeout ticking 1 3 3 bench
       = Some (Inr (False, elapse ticking (stop ?sx)))"
    by simp
  let ?t1 = "elapse still (goToPosition 3 (bench\<lparr>clock := 1\<rparr>))"
  let ?tx = "elapse still (elapse still ?t1)"
  have b: "settledAtPosition still ?t1 3 = Inr (True, ?tx)"
    by (subst settledAtPosition_value [where ?p1.0 = 0 and ?p2.0 = 0])
       (simp_all add: bench_fields)
  have d: "4294967295 + millis ?t1 = 0"
    by (simp add: millis_def bench_fields)
  have k: "goToPositionWaitTimeout_loop still 1 3 (4294967295 + millis ?t1) ?t1
             = Some (Inr ?tx)"
    unfolding One_nat_def by (rule timeout_loop_settled [OF b])
  have "\<not> millis (elapse still (stop ?tx)) < 4294967295 + millis ?t1"
    unfolding d by simp
  with timeout_finish [OF k]
  have wrap: "goToPositionWaitTimeout still 1 3 4294967295 (bench\<lparr>clock := 1\<rparr>)
       = Some (Inr (False, elapse still (stop ?tx)))"
    by simp
  from a c race d wrap show ?thesis
    by simp
qed

text \<open>
  C4. For every angle and every position at which the division by the multiplier is
  defined, \<open>_getDestPositionFromAngle\<close> computes a delta between -180 and 180 that differs
  from (angle - position / multiplier) by a multiple of 360, and returns
  position + delta * multiplier (an overflow where that sum does not fit an \<open>int32_t\<close>).
  With output multiplier 1, stored as 2, and position 0, angle 90 gives tick 180 and
  angle -90 gives tick -180, and \<open>goToAngle\<close> makes them the setpoint.
\<close>

theorem getDestPositionFromAngle_shortest_path:
  "(angleMultiplier st \<noteq> 0
      \<and> \<not> (sint (getPosition st) = - 2147483648 \<and> sint (angleMultiplier st) = - 1) \<longrightarrow>
      (\<exists>delta. angleDelta st angle = Inr delta
         \<and> - 180 \<le> sint delta \<and> sint delta \<le> 180
         \<and> 360 dvd (sint delta
               - (sint angle - sint (getPosition st) sdiv sint (angleMultiplier st)))
         \<and> getDestPositionFromAngle st angle
             = i32_checked (sint (getPosition st) + sint delta * sint (angleMultiplier st))))
   \<and> getDestPositionFromAngle (setAngleOutputMultiplier 1 (setPosition 0 st)) 90 = Inr 180
   \<and> getDestPositionFromAngle (setAngleOutputMultiplier 1 (setPosition 0 st)) (- 90)
       = Inr (- 180)
   \<and> (\<exists>s1. goToAngle 90 (setAngleOutputMultiplier 1 (setPosition 0 st)) = Inr s1
          \<and> pidSetpoint s1 = 180 \<and> pidMode s1 = BRICKTRONICS_MOTOR_PID_MODE_POSITION)
   \<and> (\<exists>s2. goToAngle (- 90) (setAngleOutputMultiplier 1 (setPosition 0 st)) = Inr s2
          \<and> pidSetpoint s2 = - 180 \<and> pidMode s2 = BRICKTRONICS_MOTOR_PID_MODE_POSITION)"
proof (intro conjI impI)
  assume a: "angleMultiplier st \<noteq> 0
      \<and> \<not> (sint (getPosition st) = - 2147483648 \<and> sint (angleMultiplier st) = - 1)"
  then obtain delta where d: "angleDelta st angle = Inr delta"
    "- 180 \<le> sint delta" "sint delta \<le> 180"
    "360 dvd (sint delta - (sint angle - sint (getPosition st) sdiv sint (angleMultiplier st)))"
    using angleDelta_value [of st angle] by blast
  from getDestPositionFromAngle_value [OF d(1,2,3)] d
  show "\<exists>delta. angleDelta st angle = Inr delta
         \<and> - 180 \<le> sint delta \<and> sint delta \<le> 180
         \<and> 360 dvd (sint delta
               - (sint angle - sint (getPosition st) sdiv sint (angleMultiplier st)))
         \<and> getDestPositionFromAngle st angle
             = i32_checked (sint (getPosition st) + sint delta * sint (angleMultiplier st))"
    by blast
next
  show p: "getDestPositionFromAngle (setAngleOutputMultiplier 1 (setPosition 0 st)) 90 = Inr 180"
    by (simp add: angle_eval)
  show n: "getDestPositionFromAngle (setAngleOutputMultiplier 1 (setPosition 0 st)) (- 90)
       = Inr (- 180)"
    by (simp add: angle_eval)
  show "\<exists>s1. goToAngle 90 (setAngleOutputMultiplier 1 (setPosition 0 st)) = Inr s1
          \<and> pidSetpoint s1 = 180 \<and> pidMode s1 = BRICKTRONICS_MOTOR_PID_MODE_POSITION"
    by (simp add: goToAngle_def p goToPosition_def i32_to_double_def)
  show "\<exists>s2. goToAngle (- 90) (setAngleOutputMultiplier 1 (setPosition 0 st)) = Inr s2
          \<and> pidSetpoint s2 = - 180 \<and> pidMode s2 = BRICKTRONICS_MOTOR_PID_MODE_POSITION"
    by (simp add: goToAngle_def n goToPosition_def i32_to_double_def)
qed

theorem getDestPositionFromAngle_shortest_path_witness:
  "getDestPositionFromAngle (setAngleOutputMultiplier 1 (setPosition (- 100) bench)) 350
     = Inr (- 20)"
proof -
  let ?st = "setAngleOutputMultiplier 1 (setPosition (- 100) bench)"
  have f: "angleMultiplier ?st = 2" "getPosition ?st = - 100"
    by (simp_all add: setAngleOutputMultiplier_def setPosition_def getPosition_def)
  have h: "angleMultiplier ?st \<noteq> 0
      \<and> \<not> (sint (getPosition ?st) = - 2147483648 \<and> sint (angleMultiplier ?st) = - 1)"
    unfolding f by simp
  from getDestPositionFromAngle_shortest_path [of ?st 350, THEN conjunct1, THEN mp, OF h]
  obtain delta :: "16 word" where b: "- 180 \<le> sint delta" "sint delta \<le> 180"
    and c: "360 dvd (sint delta - (sint (350 :: 32 word) - sint (- 100 :: 32 word) sdiv sint (2 :: 8 word)))"
    and r: "getDestPositionFromAngle ?st 350
             = i32_checked (sint (- 100 :: 32 word) + sint delta * sint (2 :: 8 word))"
    unfolding f by blast
  from c have "360 dvd (sint delta - 400)"
    by simp
  then obtain k where k: "sint delta - 400 = 360 * k" ..
  with b have "k = - 1"
    by arith
  with k have "sint delta = 40"
    by simp
  with r show ?thesis
    by (simp add: i32_checked_def)
qed

text \<open>
  C5. \<open>settledAtPosition(p)\<close> reads the position twice. When both readings give the same
  position, the current one, its answer is true exactly when that position is closer than
  \<open>epsilon\<close> to \<open>p\<close> and the magnitude of the PID output is below the threshold of 30. At a
  distance of exactly \<open>epsilon\<close> it is false; at a distance of \<open>epsilon - 1\<close> with output
  zero it is true. The distance of the two positions must fit an \<open>int32_t\<close>, as the
  subtraction needs to be defined.
\<close>

theorem settledAtPosition_iff:
  assumes "getPosition (elapse E st) = pos"
    and "getPosition (elapse E (elapse E st)) = pos"
    and "- 2147483648 < sint pos - sint p"
    and "sint pos - sint p \<le> 2147483647"
  shows "settledAtPosition E st p =
           Inr (\<bar>sint pos - sint p\<bar> < uint (epsilon st) \<and> \<bar>pidOutput st\<bar> < 30,
                elapse E (elapse E st))
         \<and> (\<bar>sint pos - sint p\<bar> = uint (epsilon st)
              \<longrightarrow> settledAtPosition E st p = Inr (False, elapse E (elapse E st)))
         \<and> (\<bar>sint pos - sint p\<bar> = uint (epsilon st) - 1 \<and> pidOutput st = 0
              \<longrightarrow> settledAtPosition E st p = Inr (True, elapse E (elapse E st)))"
proof -
  have "settledAtPosition E st p =
           Inr ((if 0 < sint pos - sint p then sint pos - sint p else - (sint pos - sint p))
                  < uint (epsilon st) \<and> \<bar>pidOutput st\<bar> < 30,
                elapse E (elapse E st))"
    using assms by (intro settledAtPosition_value) simp_all
  moreover have "(if 0 < sint pos - sint p then sint pos - sint p else - (sint pos - sint p))
      = \<bar>sint pos - sint p\<bar>"
    by simp
  ultimately have main: "settledAtPosition E st p =
           Inr (\<bar>sint pos - sint p\<bar> < uint (epsilon st) \<and> \<bar>pidOutput st\<bar> < 30,
                elapse E (elapse E st))"
    by (simp only:)
  show ?thesis
    unfolding main by simp
qed

theorem settledAtPosition_iff_witness:
  "settledAtPosition ticking (setPosition 104 bench) 100
     = Inr (True, elapse ticking (elapse ticking (setPosition 104 bench)))
   \<and> settledAtPosition ticking (setPosition 105 bench) 100
     = Inr (False, elapse ticking (elapse ticking (setPosition 105 bench)))"
  using settledAtPosition_iff [of ticking "setPosition 104 bench" 104 100]
    settledAtPosition_iff [of ticking "setPosition 105 bench" 105 100]
  by (simp add: bench_def powered_up_def BricktronicsMotor_def setPosition_def getPosition_def
      elapse_def ticking_def BRICKTRONICS_MOTOR_EPSILON_DEFAULT_def)

text \<open>
  C6. In position mode \<open>update()\<close> stores the tick count it reads as the measured input.
  When that input is less than 5 away from the setpoint, \<open>SetTunings\<close> is called with
  each base gain divided by 8, otherwise with the base gains, and \<open>Compute\<close> is the next
  command after it. The stored base gains are the same before and after.
\<close>

theorem update_position_tunings:
  assumes "pidMode st = BRICKTRONICS_MOTOR_PID_MODE_POSITION"
    and "update E st = Inr st'"
  shows "pidInput st' = i32_to_double (fst (physics E st))
    \<and> pidSetpoint st' = pidSetpoint st
    \<and> (\<bar>pidInput st' - pidSetpoint st'\<bar> < 5 \<longrightarrow>
          pidTunings st' = (pidKp st / 8, pidKi st / 8, pidKd st / 8)
          \<and> (\<exists>ws. calls st' =
                ws @ PidCompute
                   # PidSetTunings (pidKp st / 8) (pidKi st / 8) (pidKd st / 8) # calls st))
    \<and> (\<not> \<bar>pidInput st' - pidSetpoint st'\<bar> < 5 \<longrightarrow>
          pidTunings st' = (pidKp st, pidKi st, pidKd st)
          \<and> (\<exists>ws. calls st' =
                ws @ PidCompute # PidSetTunings (pidKp st) (pidKi st) (pidKd st) # calls st))
    \<and> pidKp st' = pidKp st \<and> pidKi st' = pidKi st \<and> pidKd st' = pidKd st"
proof -
  define st2 where "st2 = (elapse E st)\<lparr>pidInput := i32_to_double (encoder (elapse E st))\<rparr>"
  define st3 where "st3 = (if double_abs (pidInput st2 - pidSetpoint st2) < 5
                    then pidUpdateTuningsConservative 8 st2
                    else pidUpdateTunings st2)"
  define st4 where "st4 = pid_Compute E st3"
  obtain s where s: "double_to_i16 (pidOutput st4) = Inr s" and st': "st' = rawSetSpeed s st4"
    using assms unfolding update_def st2_def st3_def st4_def Let_def
    by (auto split: sum.splits)
  have abs_eq: "double_abs x = \<bar>x\<bar>" for x
    by (simp add: double_abs_def abs_if)
  have f2: "pidInput st2 = i32_to_double (fst (physics E st))" "pidSetpoint st2 = pidSetpoint st"
    "pidKp st2 = pidKp st" "pidKi st2 = pidKi st" "pidKd st2 = pidKd st" "calls st2 = calls st"
    by (simp_all add: st2_def elapse_def)
  have f3: "pidInput st3 = pidInput st2" "pidSetpoint st3 = pidSetpoint st2"
    "pidKp st3 = pidKp st2" "pidKi st3 = pidKi st2" "pidKd st3 = pidKd st2"
    by (simp_all add: st3_def pidUpdateTuningsConservative_def pidUpdateTunings_def
        pid_SetTunings_def)
  have t3: "pidTunings st3 = (if \<bar>pidInput st2 - pidSetpoint st2\<bar> < 5
              then (pidKp st / 8, pidKi st / 8, pidKd st / 8)
              else (pidKp st, pidKi st, pidKd st))"
    by (simp add: st3_def abs_eq f2 pidUpdateTuningsConservative_def pidUpdateTunings_def
        pid_SetTunings_def)
  have c3: "calls st3 = (if \<bar>pidInput st2 - pidSetpoint st2\<bar> < 5
              then PidSetTunings (pidKp st / 8) (pidKi st / 8) (pidKd st / 8)
              else PidSetTunings (pidKp st) (pidKi st) (pidKd st)) # calls st"
    by (simp add: st3_def abs_eq f2 pidUpdateTuningsConservative_def pidUpdateTunings_def
        pid_SetTunings_def)
  have f4: "pidInput st4 = pidInput st3" "pidSetpoint st4 = pidSetpoint st3"
    "pidKp st4 = pidKp st3" "pidKi st4 = pidKi st3" "pidKd st4 = pidKd st3"
    "pidTunings st4 = pidTunings st3" "calls st4 = PidCompute # calls st3"
    by (simp_all add: st4_def pid_Compute_def)
  obtain ws where ws: "calls st' = ws @ calls st4"
    using rawSetSpeed_calls [of s st4] st' by auto
  show ?thesis
    using ws by (simp add: st' rawSetSpeed_fields f4 f3 f2 t3 c3)
qed

theorem update_position_tunings_witness:
  "\<exists>st'. update (arriving 98 20) (goToPosition 100 bench) = Inr st'
     \<and> pidInput st' = 98 \<and> pidSetpoint st' = 100
     \<and> pidTunings st' = (2.64 / 8, 14.432 / 8, 0.1207317073 / 8)
     \<and> pidKp st' = 2.64 \<and> pidKi st' = 14.432 \<and> pidKd st' = 0.1207317073"
proof -
  obtain st' where run: "update (arriving 98 20) (goToPosition 100 bench) = Inr st'"
    using bench_update by blast
  have mode: "pidMode (goToPosition 100 bench) = BRICKTRONICS_MOTOR_PID_MODE_POSITION"
    by (simp add: goToPosition_def)
  show ?thesis
    using update_position_tunings [OF mode run] run
    by (simp add: goToPosition_def bench_def powered_up_def BricktronicsMotor_def arriving_def
      i32_to_double_def BRICKTRONICS_MOTOR_PID_KP_def BRICKTRONICS_MOTOR_PID_KI_def
      BRICKTRONICS_MOTOR_PID_KD_def)
qed

text \<open>
  C7. With \<open>pidMode\<close> equal to Disabled, \<open>update()\<close> returns the state it was given: no
  member changes, and the list of commands sent to the pins and the PID object is the
  same. The constructor leaves the mode Disabled, so this holds right after construction.
\<close>

theorem update_disabled_noop:
  "(pidMode st = BRICKTRONICS_MOTOR_PID_MODE_DISABLED \<longrightarrow> update E st = Inr st)
   \<and> pidMode (BricktronicsMotor en dir pwm raw) = BRICKTRONICS_MOTOR_PID_MODE_DISABLED
   \<and> update E (BricktronicsMotor en dir pwm raw) = Inr (BricktronicsMotor en dir pwm raw)"
  by (simp add: update_def BricktronicsMotor_def BRICKTRONICS_MOTOR_PID_MODE_DISABLED_def
      BRICKTRONICS_MOTOR_PID_MODE_POSITION_def BRICKTRONICS_MOTOR_PID_MODE_SPEED_def)

theorem update_disabled_noop_witness:
  "pidMode bench = BRICKTRONICS_MOTOR_PID_MODE_DISABLED \<and> update still bench = Inr bench"
  using update_disabled_noop [of bench still]
  by (simp add: bench_def BricktronicsMotor_def)



text \<open>
  C9. \<open>rawSetSpeed(0)\<close> is a full stop whatever speed was commanded before: afterwards
  the enable, direction and PWM pins are all low.
\<close>

theorem rawSetSpeed_zero_stops:
  "pins (rawSetSpeed 0 (rawSetSpeed s st)) (enPin st) = LOW
   \<and> pins (rawSetSpeed 0 (rawSetSpeed s st)) (dirPin st) = LOW
   \<and> pins (rawSetSpeed 0 (rawSetSpeed s st)) (pwmPin st) = LOW
   \<and> pins (rawSetSpeed 0 st) (enPin st) = LOW
   \<and> pins (rawSetSpeed 0 st) (dirPin st) = LOW
   \<and> pins (rawSetSpeed 0 st) (pwmPin st) = LOW"
  by (simp add: rawSetSpeed_def stop_def digitalWrite_def analogWrite_def Let_def)

theorem rawSetSpeed_zero_stops_witness:
  "pins (rawSetSpeed 0 (rawSetSpeed 200 bench)) 79 = LOW
   \<and> pins (rawSetSpeed 0 (rawSetSpeed 200 bench)) 78 = LOW
   \<and> pins (rawSetSpeed 0 (rawSetSpeed 200 bench)) 10 = LOW"
  using rawSetSpeed_zero_stops [of 200 bench]
  by (simp add: bench_def BricktronicsMotor_def)

text \<open>
  C10. \<open>stop()\<close> leaves \<open>_rawSpeed\<close> as it is: after \<open>rawSetSpeed(s)\<close> with \<open>s\<close> not zero and
  then \<open>stop()\<close>, \<open>rawGetSpeed()\<close> returns \<open>s\<close> while the three pins are low. The same
  holds of the \<open>stop()\<close> at the end of \<open>goToPositionWait\<close> and \<open>goToPositionWaitTimeout\<close>:
  the raw speed they return with is the one stored when the loop was left.
\<close>

theorem stop_keeps_rawSpeed:
  "rawGetSpeed (stop st) = rawGetSpeed st
   \<and> (s \<noteq> 0 \<longrightarrow>
         rawGetSpeed (stop (rawSetSpeed s st)) = s
         \<and> pins (stop (rawSetSpeed s st)) (enPin st) = LOW
         \<and> pins (stop (rawSetSpeed s st)) (dirPin st) = LOW
         \<and> pins (stop (rawSetSpeed s st)) (pwmPin st) = LOW)
   \<and> (goToPositionWait E fuel p st = Some (Inr st') \<longrightarrow>
         (\<exists>sx. goToPositionWait_loop E fuel p (goToPosition p st) = Some (Inr sx)
            \<and> rawGetSpeed st' = rawGetSpeed sx
            \<and> pins st' (enPin st') = LOW \<and> pins st' (dirPin st') = LOW
            \<and> pins st' (pwmPin st') = LOW))
   \<and> (goToPositionWaitTimeout E fuel p timeoutMS st = Some (Inr (ok, st'')) \<longrightarrow>
         (\<exists>sx. goToPositionWaitTimeout_loop E fuel p
                  (timeoutMS + millis (elapse E (goToPosition p st)))
                  (elapse E (goToPosition p st)) = Some (Inr sx)
            \<and> rawGetSpeed st'' = rawGetSpeed sx
            \<and> pins st'' (enPin st'') = LOW \<and> pins st'' (dirPin st'') = LOW
            \<and> pins st'' (pwmPin st'') = LOW))"
proof (intro conjI impI)
  show "rawGetSpeed (stop st) = rawGetSpeed st"
    by (simp add: rawGetSpeed_def stop_fields)
next
  assume "s \<noteq> 0"
  show "rawGetSpeed (stop (rawSetSpeed s st)) = s"
    by (simp add: rawGetSpeed_def stop_fields rawSetSpeed_fields)
next
  show "pins (stop (rawSetSpeed s st)) (enPin st) = LOW"
    using stop_pins(1) [of "rawSetSpeed s st"] by (simp add: rawSetSpeed_fields)
next
  show "pins (stop (rawSetSpeed s st)) (dirPin st) = LOW"
    using stop_pins(2) [of "rawSetSpeed s st"] by (simp add: rawSetSpeed_fields)
next
  show "pins (stop (rawSetSpeed s st)) (pwmPin st) = LOW"
    using stop_pins(3) [of "rawSetSpeed s st"] by (simp add: rawSetSpeed_fields)
next
  assume "goToPositionWait E fuel p st = Some (Inr st')"
  then obtain sx where "goToPositionWait_loop E fuel p (goToPosition p st) = Some (Inr sx)"
    and "st' = stop sx"
    by (auto simp add: goToPositionWait_def split: option.splits sum.splits)
  then show "\<exists>sx. goToPositionWait_loop E fuel p (goToPosition p st) = Some (Inr sx)
            \<and> rawGetSpeed st' = rawGetSpeed sx
            \<and> pins st' (enPin st') = LOW \<and> pins st' (dirPin st') = LOW
            \<and> pins st' (pwmPin st') = LOW"
    by (simp add: rawGetSpeed_def stop_fields stop_pins)
next
  assume "goToPositionWaitTimeout E fuel p timeoutMS st = Some (Inr (ok, st''))"
  then obtain sx where "goToPositionWaitTimeout_loop E fuel p
                  (timeoutMS + millis (elapse E (goToPosition p st)))
                  (elapse E (goToPosition p st)) = Some (Inr sx)"
    and "st'' = elapse E (stop sx)"
    by (auto simp add: goToPositionWaitTimeout_def Let_def split: option.splits sum.splits if_splits)
  then show "\<exists>sx. goToPositionWaitTimeout_loop E fuel p
                  (timeoutMS + millis (elapse E (goToPosition p st)))
                  (elapse E (goToPosition p st)) = Some (Inr sx)
            \<and> rawGetSpeed st'' = rawGetSpeed sx
            \<and> pins st'' (enPin st'') = LOW \<and> pins st'' (dirPin st'') = LOW
            \<and> pins st'' (pwmPin st'') = LOW"
    by (simp add: rawGetSpeed_def stop_fields stop_pins elapse_fields)
qed

theorem stop_keeps_rawSpeed_witness:
  "rawGetSpeed (stop (rawSetSpeed 200 bench)) = 200
   \<and> pins (stop (rawSetSpeed 200 bench)) 79 = LOW
   \<and> pins (stop (rawSetSpeed 200 bench)) 78 = LOW
   \<and> pins (stop (rawSetSpeed 200 bench)) 10 = LOW
   \<and> (\<exists>st'. goToPositionWait (arriving 100 20) 2 100 (bench\<lparr>pidOutput := 50\<rparr>) = Some (Inr st')
         \<and> rawGetSpeed st' = 20
         \<and> pins st' (enPin st') = LOW \<and> pins st' (dirPin st') = LOW
         \<and> pins st' (pwmPin st') = LOW)"
proof -
  obtain st' where
    run: "goToPositionWait (arriving 100 20) 2 100 (bench\<lparr>pidOutput := 50\<rparr>) = Some (Inr st')"
    and sp: "rawSpeed st' = 20"
    using bench_wait by blast
  have nz: "(200 :: 16 word) \<noteq> 0"
    by simp
  have 1: "rawGetSpeed (stop (rawSetSpeed 200 bench)) = 200
   \<and> pins (stop (rawSetSpeed 200 bench)) 79 = LOW
   \<and> pins (stop (rawSetSpeed 200 bench)) 78 = LOW
   \<and> pins (stop (rawSetSpeed 200 bench)) 10 = LOW"
    using stop_keeps_rawSpeed [where st = bench and s = 200] nz
    by (simp add: bench_def BricktronicsMotor_def)
  have 2: "pins st' (enPin st') = LOW \<and> pins st' (dirPin st') = LOW \<and> pins st' (pwmPin st') = LOW"
    using stop_keeps_rawSpeed [where E = "arriving 100 20" and fuel = 2 and p = 100
          and st = "bench\<lparr>pidOutput := 50\<rparr>" and st' = st'] run
    by blast
  show ?thesis
    using 1 2 run sp by (auto simp add: rawGetSpeed_def)
qed

end
